theory Spec2Isabelle
  imports Main "HOL-Library.Sublist"
begin

section \<open>Python strings\<close>

text \<open>
  A Python \<open>str\<close> is a sequence of Unicode code points; a code point is a natural
  number here, so that no character of a model response is excluded. String
  literals of the source are written with \<open>lit\<close>.
\<close>

type_synonym str = "nat list"

definition lit :: "string \<Rightarrow> str" where
  "lit s = map of_char s"

text \<open>\<open>str.isspace\<close> on one character: the code points Python classifies as whitespace.\<close>

definition is_space :: "nat \<Rightarrow> bool" where
  "is_space c \<longleftrightarrow>
     (0x09 \<le> c \<and> c \<le> 0x0D) \<or> (0x1C \<le> c \<and> c \<le> 0x20) \<or> c = 0x85 \<or> c = 0xA0 \<or>
     c = 0x1680 \<or> (0x2000 \<le> c \<and> c \<le> 0x200A) \<or> c = 0x2028 \<or> c = 0x2029 \<or>
     c = 0x202F \<or> c = 0x205F \<or> c = 0x3000"

text \<open>\<open>s.strip()\<close>: leading and trailing whitespace removed.\<close>

definition strip :: "str \<Rightarrow> str" where
  "strip s = rev (dropWhile is_space (rev (dropWhile is_space s)))"

text \<open>\<open>s.strip(chars)\<close> for a given set of characters.\<close>

definition strip_chars :: "str \<Rightarrow> str \<Rightarrow> str" where
  "strip_chars chars s =
     rev (dropWhile (\<lambda>c. c \<in> set chars) (rev (dropWhile (\<lambda>c. c \<in> set chars) s)))"

text \<open>
  \<open>s.split(sep)\<close> for a non-empty separator: the text is cut at the leftmost
  occurrences of \<open>sep\<close>, scanning left to right without overlap. \<open>cons_first\<close>
  puts a character in front of the first part.
\<close>

fun cons_first :: "nat \<Rightarrow> str list \<Rightarrow> str list" where
  "cons_first c [] = [[c]]"
| "cons_first c (p # ps) = (c # p) # ps"

fun split_str :: "str \<Rightarrow> str \<Rightarrow> str list" where
  "split_str sep [] = [[]]"
| "split_str sep (c # cs) =
     (if sep \<noteq> [] \<and> prefix sep (c # cs)
      then [] # split_str sep (drop (length sep - 1) cs)
      else cons_first c (split_str sep cs))"

text \<open>\<open>str(n)\<close> for a non-negative integer: its decimal digits.\<close>

fun str_of_nat :: "nat \<Rightarrow> str" where
  "str_of_nat n = (if n < 10 then [48 + n] else str_of_nat (n div 10) @ [48 + n mod 10])"

declare str_of_nat.simps [simp del]

section \<open>Errors\<close>

text \<open>
  The exceptions a run can meet, as raised by the completion call or by the file
  system: an index out of range and any other exception of class
  \<open>Exception\<close>, with its message; and an exception outside class \<open>Exception\<close>
  (a \<open>KeyboardInterrupt\<close>, a \<open>SystemExit\<close>), with its message.
  \<open>is_exception\<close> is the test \<open>isinstance(e, Exception)\<close> that an
  \<open>except Exception\<close> clause makes.
\<close>

datatype error = IndexError | Exception str | BaseException str

definition is_exception :: "error \<Rightarrow> bool" where
  "is_exception e = (case e of IndexError \<Rightarrow> True | Exception msg \<Rightarrow> True | BaseException msg \<Rightarrow> False)"

text \<open>\<open>xs[i]\<close> for a non-negative index: out of range raises.\<close>

definition index :: "'a list \<Rightarrow> nat \<Rightarrow> error + 'a" where
  "index xs i = (if i < length xs then Inr (xs ! i) else Inl IndexError)"

section \<open>Code extractor and turn formatter\<close>

definition fence :: str where
  "fence = lit ''```''"

text \<open>
  \<open>extract_code_block\<close>: when the response contains the fence and splitting on it
  gives at least three parts, the second part is stripped, a leading
  \<open>python\<close> is removed and the rest stripped again; otherwise the whole
  response is stripped.
\<close>

definition extract_code_block :: "str \<Rightarrow> error + str" where
  "extract_code_block response =
     (if sublist fence response \<and> 3 \<le> length (split_str fence response)
      then (case index (split_str fence response) 1 of
              Inl e \<Rightarrow> Inl e
            | Inr part \<Rightarrow>
                (let code_block = strip part
                 in Inr (if prefix (lit ''python'') code_block
                         then strip (drop 6 code_block) else code_block)))
      else Inr (strip response))"

text \<open>\<open>create_clean_assistant_response\<close>: the code between a \<open>python\<close> fence and a closing fence.\<close>

definition create_clean_assistant_response :: "str \<Rightarrow> str" where
  "create_clean_assistant_response code = lit ''```python'' @ [10] @ code @ [10] @ lit ''```''"

definition str_of_error :: "error \<Rightarrow> str" where
  "str_of_error e =
     (case e of
        IndexError \<Rightarrow> lit ''list index out of range''
      | Exception msg \<Rightarrow> msg
      | BaseException msg \<Rightarrow> msg)"

section \<open>Conversation driver\<close>

text \<open>A message is a dictionary with the two keys \<open>role\<close> and \<open>content\<close>.\<close>

record message =
  role :: str
  content :: str

text \<open>
  What the program takes from outside: the completion service (the call of
  \<open>generate_response\<close> with its fixed model and token limit, and the reading of the
  first choice's content), opening a file for writing and writing to it, and
  Python's Unicode tables behind \<open>str.lower\<close> and \<open>str.isalnum\<close>.
\<close>

record env =
  completion :: "message list \<Rightarrow> error + str"
  file_open :: "str \<Rightarrow> error option"
  file_write :: "str \<Rightarrow> str \<Rightarrow> error option"
  str_lower :: "str \<Rightarrow> str"
  isalnum :: "nat \<Rightarrow> bool"

text \<open>
  The state of a run: the local list \<open>messages\<close>, the histories sent to the
  completion service so far, the arguments of the \<open>print\<close> calls so far, and the
  contents of the files written.
\<close>

record state =
  messages :: "message list"
  requests :: "message list list"
  console :: "str list"
  files :: "str \<rightharpoonup> str"

definition print :: "str \<Rightarrow> state \<Rightarrow> state" where
  "print line s = s\<lparr>console := console s @ [line]\<rparr>"

text \<open>Several \<open>print\<close> calls in a row, in order.\<close>

definition prints :: "str list \<Rightarrow> state \<Rightarrow> state" where
  "prints lines s = s\<lparr>console := console s @ lines\<rparr>"

definition append_message :: "message \<Rightarrow> state \<Rightarrow> state" where
  "append_message m s = s\<lparr>messages := messages s @ [m]\<rparr>"

definition generate_response :: "env \<Rightarrow> message list \<Rightarrow> state \<Rightarrow> (error + str) \<times> state" where
  "generate_response env msgs s = (completion env msgs, s\<lparr>requests := requests s @ [msgs]\<rparr>)"

definition generate_filename :: "env \<Rightarrow> str \<Rightarrow> str" where
  "generate_filename env description =
     (let filename = str_lower env description;
          filename = filter (\<lambda>c. isalnum env c \<or> is_space c) filename;
          filename = take 40 (map (\<lambda>c. if c = 32 then 95 else c) filename)
      in strip_chars (lit ''_'') filename @ lit ''_complete.py'')"

text \<open>
  The clause \<open>except Exception as e\<close> of \<open>save_function_to_file\<close>: an exception
  of class \<open>Exception\<close> is reported as a warning and \<open>None\<close> returned; any other
  exception leaves the function.
\<close>

definition except_Exception :: "error \<Rightarrow> state \<Rightarrow> (error + str option) \<times> state" where
  "except_Exception e s =
     (if is_exception e
      then (Inr None, print (lit ''Warning: Could not save to file - '' @ str_of_error e) s)
      else (Inl e, s))"

text \<open>
  \<open>save_function_to_file\<close>: the file is opened for writing (which empties it) and
  the code written; an exception of either goes to the \<open>except\<close> clause.
\<close>

definition save_function_to_file ::
    "env \<Rightarrow> str \<Rightarrow> str \<Rightarrow> state \<Rightarrow> (error + str option) \<times> state" where
  "save_function_to_file env code description s =
     (let filename = generate_filename env description
      in case file_open env filename of
           Some e \<Rightarrow> except_Exception e s
         | None \<Rightarrow>
             (let s = s\<lparr>files := (files s)(filename \<mapsto> [])\<rparr>
              in case file_write env filename code of
                   Some e \<Rightarrow> except_Exception e s
                 | None \<Rightarrow> (Inr (Some filename), s\<lparr>files := (files s)(filename \<mapsto> code)\<rparr>)))"

definition system_message :: message where
  "system_message =
     \<lparr>role = lit ''system'',
      content = lit ''You are an expert Python programmer. Write clean, efficient functions based on user descriptions. Always output code in ```python code blocks```.''\<rparr>"

definition step1_prompt :: "str \<Rightarrow> message" where
  "step1_prompt description =
     \<lparr>role = lit ''user'',
      content = lit ''Write a Python function that '' @ description @
        lit ''. Output the function in a ```python code block```.''\<rparr>"

definition step2_prompt :: message where
  "step2_prompt =
     \<lparr>role = lit ''user'',
      content = lit ''Add comprehensive documentation to this function including: function description, parameter descriptions with types, return value description, example usage, and edge cases. Output the complete documented function in a ```python code block```.''\<rparr>"

definition step3_prompt :: message where
  "step3_prompt =
     \<lparr>role = lit ''user'',
      content = lit ''Add comprehensive unittest test cases to this code. Include tests for: basic functionality, edge cases, error cases, and various input scenarios. Return the complete code with the function, imports, test class, and main block to run tests in a ```python code block```.''\<rparr>"

text \<open>The assistant message the driver records for a piece of extracted code.\<close>

definition assistant_turn :: "str \<Rightarrow> message" where
  "assistant_turn code = \<lparr>role = lit ''assistant'', content = create_clean_assistant_response code\<rparr>"

text \<open>The block under \<open>if show_full_responses\<close> after each completion call.\<close>

definition show_full_response :: "bool \<Rightarrow> str \<Rightarrow> state \<Rightarrow> state" where
  "show_full_response show_full_responses response s =
     (if show_full_responses then prints [lit ''Full LLM Response:'', response, []] s else s)"

text \<open>
  Step 1 of \<open>create_python_function\<close>: the user message is appended, the
  completion service called with the history, the code extracted and printed,
  and the clean assistant message appended. An exception of the call leaves the
  step at once.
\<close>

definition step1 :: "env \<Rightarrow> str \<Rightarrow> bool \<Rightarrow> state \<Rightarrow> (error + str) \<times> state" where
  "step1 env description show_full_responses s0 =
     (let s = prints [[10, 0x1F527] @ lit '' STEP 1: Generating Basic Function'',
                      lit ''Goal: Create a working function with core logic''] s0;
          s = append_message (step1_prompt description) s
      in case generate_response env (messages s) s of
           (Inl e, s) \<Rightarrow> (Inl e, s)
         | (Inr response1, s) \<Rightarrow>
             (let s = show_full_response show_full_responses response1 s
              in case extract_code_block response1 of
                   Inl e \<Rightarrow> (Inl e, s)
                 | Inr basic_function \<Rightarrow>
                     (let s = prints [[0x2705] @ lit '' Generated Basic Function:'',
                                      basic_function, []] s;
                          s = append_message (assistant_turn basic_function) s
                      in (Inr basic_function, s))))"

definition step2 :: "env \<Rightarrow> bool \<Rightarrow> state \<Rightarrow> (error + str) \<times> state" where
  "step2 env show_full_responses s0 =
     (let s = prints [[0x1F4DA] @ lit '' STEP 2: Adding Documentation'',
                      lit ''Goal: Add comprehensive docstrings and parameter descriptions''] s0;
          s = append_message step2_prompt s
      in case generate_response env (messages s) s of
           (Inl e, s) \<Rightarrow> (Inl e, s)
         | (Inr response2, s) \<Rightarrow>
             (let s = show_full_response show_full_responses response2 s
              in case extract_code_block response2 of
                   Inl e \<Rightarrow> (Inl e, s)
                 | Inr documented_function \<Rightarrow>
                     (let s = prints [[0x2705] @ lit '' Added Documentation:'',
                                      documented_function, []] s;
                          s = append_message (assistant_turn documented_function) s
                      in (Inr documented_function, s))))"

text \<open>Step 3 appends no assistant message: no completion call follows it.\<close>

definition step3 :: "env \<Rightarrow> bool \<Rightarrow> state \<Rightarrow> (error + str) \<times> state" where
  "step3 env show_full_responses s0 =
     (let s = prints [[0x1F9EA] @ lit '' STEP 3: Adding Test Cases'',
                      lit ''Goal: Add comprehensive unittest test cases''] s0;
          s = append_message step3_prompt s
      in case generate_response env (messages s) s of
           (Inl e, s) \<Rightarrow> (Inl e, s)
         | (Inr response3, s) \<Rightarrow>
             (let s = show_full_response show_full_responses response3 s
              in case extract_code_block response3 of
                   Inl e \<Rightarrow> (Inl e, s)
                 | Inr final_code \<Rightarrow>
                     (Inr final_code,
                      prints [[0x2705] @ lit '' Added Test Cases:'', final_code, []] s)))"

text \<open>The listing of the conversation under \<open>if show_full_responses\<close> at the end.\<close>

definition debug_conversation :: "state \<Rightarrow> state" where
  "debug_conversation s =
     (let s = prints [[10, 0x1F50D] @ lit '' DEBUG: Final Conversation'', replicate 30 61] s;
          s = prints (map (\<lambda>(i, msg). str_of_nat (i + 1) @ lit ''. '' @ role msg @ lit '': '' @
                                       take 100 (content msg) @ lit ''...'')
                          (enumerate 0 (messages s))) s
      in print [] s)"

text \<open>
  The last section of \<open>create_python_function\<close>: the final code is saved, the name
  of the file printed when there is one, and the conversation listed on request.
  An exception that \<open>save_function_to_file\<close> does not catch leaves the section
  at once.
\<close>

definition save_and_finish ::
    "env \<Rightarrow> str \<Rightarrow> bool \<Rightarrow> str \<Rightarrow> state \<Rightarrow> (error + unit) \<times> state" where
  "save_and_finish env description show_full_responses final_code s0 =
     (let s = print ([0x1F4BE] @ lit '' SAVING RESULTS'') s0
      in case save_function_to_file env final_code description s of
           (Inl e, s) \<Rightarrow> (Inl e, s)
         | (Inr filename, s) \<Rightarrow>
             (let s = (case filename of
                         None \<Rightarrow> s
                       | Some name \<Rightarrow>
                           if name \<noteq> []
                           then print ([0x2705] @ lit '' Saved complete function to: '' @ name) s
                           else s)
              in (Inr (), if show_full_responses then debug_conversation s else s)))"

text \<open>
  The opening of \<open>create_python_function\<close>: the heading is printed and the
  history initialised with the system message.
\<close>

definition start :: "str \<Rightarrow> state \<Rightarrow> state" where
  "start description s0 =
     (let s = prints [[0x1F680] @ lit '' Creating function: '' @ description, replicate 60 61] s0
      in s\<lparr>messages := [system_message]\<rparr>)"

text \<open>
  \<open>create_python_function\<close>: the opening, the three steps in order, then the
  saving of the final code. The result is the exception that left the function,
  or the three pieces of code; the state returned is the one at that moment.
  Nothing here catches an exception of a step or of the last section.
\<close>

definition create_python_function ::
    "env \<Rightarrow> str \<Rightarrow> bool \<Rightarrow> state \<Rightarrow> (error + str \<times> str \<times> str) \<times> state" where
  "create_python_function env description show_full_responses s0 =
     (case step1 env description show_full_responses (start description s0) of
        (Inl e, s) \<Rightarrow> (Inl e, s)
      | (Inr basic_function, s) \<Rightarrow>
          (case step2 env show_full_responses s of
             (Inl e, s) \<Rightarrow> (Inl e, s)
           | (Inr documented_function, s) \<Rightarrow>
               (case step3 env show_full_responses s of
                  (Inl e, s) \<Rightarrow> (Inl e, s)
                | (Inr final_code, s) \<Rightarrow>
                    (case save_and_finish env description show_full_responses final_code s of
                       (Inl e, s) \<Rightarrow> (Inl e, s)
                     | (Inr u, s) \<Rightarrow>
                         (Inr (basic_function, documented_function, final_code), s)))))"

section \<open>Sample surroundings\<close>

text \<open>
  A completion service that answers the three calls of a run from a script, a
  file system that accepts every write and one that refuses to open a file, and
  lower-casing and classification of ASCII characters.
\<close>

definition ascii_lower :: "str \<Rightarrow> str" where
  "ascii_lower s = map (\<lambda>c. if 65 \<le> c \<and> c \<le> 90 then c + 32 else c) s"

definition ascii_isalnum :: "nat \<Rightarrow> bool" where
  "ascii_isalnum c \<longleftrightarrow> (48 \<le> c \<and> c \<le> 57) \<or> (65 \<le> c \<and> c \<le> 90) \<or> (97 \<le> c \<and> c \<le> 122)"

definition scripted :: "(error + str) \<Rightarrow> (error + str) \<Rightarrow> (error + str) \<Rightarrow> message list \<Rightarrow> error + str" where
  "scripted r1 r2 r3 history =
     (if length history = 2 then r1 else if length history = 4 then r2 else r3)"

definition sample_env :: "(error + str) \<Rightarrow> (error + str) \<Rightarrow> (error + str) \<Rightarrow> error option \<Rightarrow> env" where
  "sample_env r1 r2 r3 open_result =
     \<lparr>completion = scripted r1 r2 r3, file_open = (\<lambda>name. open_result),
      file_write = (\<lambda>name code. None), str_lower = ascii_lower, isalnum = ascii_isalnum\<rparr>"

definition empty_state :: state where
  "empty_state = \<lparr>messages = [], requests = [], console = [], files = Map.empty\<rparr>"

definition sample_response :: "str \<Rightarrow> str" where
  "sample_response code =
     lit ''Here is the code: ```python'' @ [10] @ code @ [10] @ lit ''``` Done.''"

text \<open>
  Four surroundings for a run: one where every call answers and the file is
  written, one where the second completion call raises, one where the file
  cannot be opened, and one where opening the file is interrupted from the
  keyboard.
\<close>

definition good_env :: env where
  "good_env =
     sample_env (Inr (sample_response (lit ''a''))) (Inr (sample_response (lit ''b'')))
       (Inr (sample_response (lit ''c''))) None"

definition failing_env :: env where
  "failing_env =
     sample_env (Inr (sample_response (lit ''a''))) (Inl (Exception (lit ''timeout'')))
       (Inr (sample_response (lit ''c''))) None"

definition readonly_env :: env where
  "readonly_env =
     sample_env (Inr (sample_response (lit ''a''))) (Inr (sample_response (lit ''b'')))
       (Inr (sample_response (lit ''c''))) (Some (Exception (lit ''read-only file system'')))"

definition interrupted_env :: env where
  "interrupted_env =
     sample_env (Inr (sample_response (lit ''a''))) (Inr (sample_response (lit ''b'')))
       (Inr (sample_response (lit ''c''))) (Some (BaseException []))"

section \<open>Facts about strings\<close>

lemma fence_eq: "fence = [96, 96, 96]"
  by (simp add: fence_def lit_def)

lemma python_eq: "lit ''python'' = [112, 121, 116, 104, 111, 110]"
  by (simp add: lit_def)

lemma fence_python_eq: "lit ''```python'' = fence @ lit ''python''"
  by (simp add: fence_def lit_def)

lemma rev_fence: "rev fence = fence"
  by (simp add: fence_eq)

lemma not_space_96: "\<not> is_space 96"
  by (simp add: is_space_def)

lemma space_10: "is_space 10"
  by (simp add: is_space_def)

lemma not_space_p: "\<not> is_space 112" "\<not> is_space 110"
  by (simp_all add: is_space_def)

subsection \<open>strip\<close>

lemma strip_unique:
  assumes a: "\<forall>c\<in>set a. is_space c" and b: "\<forall>c\<in>set b. is_space c"
    and m: "m = [] \<or> (\<not> is_space (hd m) \<and> \<not> is_space (last m))"
  shows "strip (a @ m @ b) = m"
proof (cases "m = []")
  case True
  from b have "dropWhile is_space b = []"
    by (simp only: dropWhile_eq_Nil_conv)
  moreover have "dropWhile is_space (a @ b) = dropWhile is_space b"
    by (rule dropWhile_append2) (use a in blast)
  ultimately have "dropWhile is_space (a @ b) = []"
    by simp
  then show ?thesis
    by (simp only: strip_def True append_Nil rev.simps dropWhile.simps)
next
  case False
  with m have h: "\<not> is_space (hd m)" and l: "\<not> is_space (last m)" by simp_all
  from False h have "dropWhile is_space (m @ b) = m @ b"
    by (cases m) simp_all
  moreover have "dropWhile is_space (a @ m @ b) = dropWhile is_space (m @ b)"
    by (rule dropWhile_append2) (use a in blast)
  ultimately have 1: "dropWhile is_space (a @ m @ b) = m @ b"
    by simp
  from False l have "dropWhile is_space (rev m) = rev m"
    by (cases m rule: rev_cases) simp_all
  moreover have "dropWhile is_space (rev b @ rev m) = dropWhile is_space (rev m)"
    by (rule dropWhile_append2) (use b in simp)
  ultimately have 2: "dropWhile is_space (rev b @ rev m) = rev m"
    by simp
  show ?thesis by (simp add: strip_def 1 2)
qed

lemma strip_decomp:
  "\<exists>a b. s = a @ strip s @ b \<and> (\<forall>c\<in>set a. is_space c) \<and> (\<forall>c\<in>set b. is_space c)
     \<and> (strip s = [] \<or> (\<not> is_space (hd (strip s)) \<and> \<not> is_space (last (strip s))))"
proof -
  define a where "a = takeWhile is_space s"
  define r where "r = dropWhile is_space s"
  define b where "b = rev (takeWhile is_space (rev r))"
  have m: "strip s = rev (dropWhile is_space (rev r))"
    by (simp add: strip_def r_def)
  have "r = rev (takeWhile is_space (rev r) @ dropWhile is_space (rev r))"
    by (simp only: takeWhile_dropWhile_id rev_rev_ident)
  also have "\<dots> = strip s @ b"
    by (simp only: rev_append m b_def)
  finally have rb: "r = strip s @ b" .
  have "s = a @ r"
    by (simp only: a_def r_def takeWhile_dropWhile_id)
  also note rb
  finally have s: "s = a @ strip s @ b" .
  have sa: "\<forall>c\<in>set a. is_space c"
    by (auto simp: a_def dest: set_takeWhileD)
  have sb: "\<forall>c\<in>set b. is_space c"
    by (auto simp: b_def dest: set_takeWhileD)
  have e: "\<not> is_space (hd (strip s)) \<and> \<not> is_space (last (strip s))" if ne: "strip s \<noteq> []"
  proof
    from ne have "r \<noteq> []" using rb by auto
    then have "\<not> is_space (hd r)" unfolding r_def by (rule hd_dropWhile)
    moreover have "hd r = hd (strip s)" using rb ne by (metis hd_append2)
    ultimately show "\<not> is_space (hd (strip s))" by simp
    from ne have d: "dropWhile is_space (rev r) \<noteq> []" by (simp add: m)
    then have "\<not> is_space (hd (dropWhile is_space (rev r)))" by (rule hd_dropWhile)
    then show "\<not> is_space (last (strip s))" using d by (simp add: m last_rev)
  qed
  from s sa sb e show ?thesis by blast
qed

lemma strip_strip: "strip (strip s) = strip s"
proof -
  from strip_decomp [of s] have "strip s = [] \<or> (\<not> is_space (hd (strip s)) \<and> \<not> is_space (last (strip s)))"
    by blast
  then have "strip ([] @ strip s @ []) = strip s"
    by (intro strip_unique) simp_all
  then show ?thesis by simp
qed

lemma sublist_strip: "sublist (strip s) s"
proof -
  have "sublist (rev (strip s)) (rev (dropWhile is_space s))"
    by (simp add: strip_def del: sublist_rev)
  then have "sublist (strip s) (dropWhile is_space s)" by simp
  moreover have "sublist (dropWhile is_space s) s" by simp
  ultimately show ?thesis by (rule sublist_order.order.trans)
qed

subsection \<open>fence occurrences\<close>

lemma prefix_fence_Cons: "prefix fence (c # s) \<Longrightarrow> c = 96"
  by (simp add: fence_eq)

lemma sublist_fence_Cons: "c \<noteq> 96 \<Longrightarrow> sublist fence (c # s) \<longleftrightarrow> sublist fence s"
  by (auto simp: sublist_Cons_right dest: prefix_fence_Cons)

lemma sublist_fence_snoc: "c \<noteq> 96 \<Longrightarrow> sublist fence (s @ [c]) \<longleftrightarrow> sublist fence s"
proof -
  assume c: "c \<noteq> 96"
  have "sublist fence (s @ [c]) \<longleftrightarrow> sublist (rev fence) (rev (s @ [c]))"
    by (simp only: sublist_rev)
  also have "\<dots> \<longleftrightarrow> sublist fence (c # rev s)" by (simp add: rev_fence)
  also have "\<dots> \<longleftrightarrow> sublist fence (rev s)" using c by (rule sublist_fence_Cons)
  also have "\<dots> \<longleftrightarrow> sublist (rev fence) (rev s)" by (simp add: rev_fence)
  also have "\<dots> \<longleftrightarrow> sublist fence s" by (simp only: sublist_rev)
  finally show ?thesis .
qed

lemma sublist_fence_strip: "sublist fence s \<Longrightarrow> sublist fence (strip s)"
proof -
  assume s: "sublist fence s"
  have dw: "sublist fence (dropWhile is_space t)" if "sublist fence t" for t
    using that
  proof (induction t)
    case Nil
    then show ?case by simp
  next
    case (Cons c t)
    show ?case
    proof (cases "is_space c")
      case True
      then have "c \<noteq> 96" using not_space_96 by auto
      with Cons show ?thesis using True by (simp add: sublist_fence_Cons)
    next
      case False
      with Cons show ?thesis by simp
    qed
  qed
  from s have "sublist fence (dropWhile is_space s)" by (rule dw)
  then have "sublist (rev fence) (rev (dropWhile is_space s))" by (simp only: sublist_rev)
  then have "sublist fence (rev (dropWhile is_space s))" by (simp only: rev_fence)
  then have "sublist fence (dropWhile is_space (rev (dropWhile is_space s)))" by (rule dw)
  then have "sublist (rev fence) (rev (dropWhile is_space (rev (dropWhile is_space s))))"
    by (simp only: sublist_rev)
  then show ?thesis by (simp only: rev_fence strip_def)
qed

subsection \<open>split\<close>

lemma split_str_not_Nil: "split_str sep s \<noteq> []"
  by (induction sep s rule: split_str.induct) (auto elim: cons_first.elims)

lemma split_str_no_sep: "\<not> sublist sep s \<Longrightarrow> split_str sep s = [s]"
proof (induction s)
  case Nil
  then show ?case by simp
next
  case (Cons c s)
  then have "\<not> prefix sep (c # s)" and "\<not> sublist sep s"
    by (auto simp: sublist_Cons_right)
  with Cons.IH show ?case by simp
qed

lemma split_fence_first:
  assumes "\<not> sublist fence s" and "s = [] \<or> last s \<noteq> 96"
  shows "split_str fence (s @ fence @ t) = s # split_str fence t"
  using assms
proof (induction s)
  case Nil
  show ?case by (simp add: fence_eq)
next
  case (Cons c s)
  from Cons.prems(1) have np: "\<not> prefix fence (c # s)" and ns: "\<not> sublist fence s"
    by (auto simp: sublist_Cons_right)
  from Cons.prems(2) have l: "s = [] \<or> last s \<noteq> 96" and c: "s = [] \<longrightarrow> c \<noteq> 96"
    by (auto split: if_splits)
  have "\<not> prefix fence (c # s @ fence @ t)"
  proof (cases s)
    case Nil
    with c show ?thesis by (simp add: fence_eq)
  next
    case (Cons d s')
    note s = this
    show ?thesis
    proof (cases s')
      case Nil
      with s l show ?thesis by (simp add: fence_eq)
    next
      case (Cons e s'')
      with s np show ?thesis by (simp add: fence_eq)
    qed
  qed
  moreover have "split_str fence (s @ fence @ t) = s # split_str fence t"
    using ns l by (rule Cons.IH)
  ultimately show ?case by simp
qed

lemma split_str_hd_prefix: "split_str sep s = q # qs \<Longrightarrow> prefix q s"
proof (induction sep s arbitrary: q qs rule: split_str.induct)
  case (1 sep)
  then show ?case by simp
next
  case (2 sep c cs)
  show ?case
  proof (cases "sep \<noteq> [] \<and> prefix sep (c # cs)")
    case True
    with "2.prems" show ?thesis by simp
  next
    case False
    obtain p ps where p: "split_str sep cs = p # ps"
      using split_str_not_Nil [of sep cs] by (cases "split_str sep cs") auto
    with False "2.IH"(2) have "prefix p cs" by blast
    with False p "2.prems" show ?thesis by auto
  qed
qed

lemma split_str_parts_no_sep:
  "sep \<noteq> [] \<Longrightarrow> p \<in> set (split_str sep s) \<Longrightarrow> \<not> sublist sep p"
proof (induction sep s arbitrary: p rule: split_str.induct)
  case (1 sep)
  then show ?case by simp
next
  case (2 sep c cs)
  show ?case
  proof (cases "sep \<noteq> [] \<and> prefix sep (c # cs)")
    case True
    with "2.prems" have "p = [] \<or> p \<in> set (split_str sep (drop (length sep - 1) cs))"
      by simp
    with True "2.IH"(1) "2.prems"(1) show ?thesis by auto
  next
    case False
    obtain q qs where q: "split_str sep cs = q # qs"
      using split_str_not_Nil [of sep cs] by (cases "split_str sep cs") auto
    then have pq: "prefix q cs" by (rule split_str_hd_prefix)
    from False q "2.prems" have "p = c # q \<or> p \<in> set qs" by simp
    then show ?thesis
    proof
      assume p: "p = c # q"
      have "\<not> sublist sep q" using False "2.IH"(2) "2.prems"(1) q by simp
      moreover have "\<not> prefix sep (c # q)"
      proof
        assume "prefix sep (c # q)"
        moreover from pq have "prefix (c # q) (c # cs)" by simp
        ultimately have "prefix sep (c # cs)" by (rule prefix_order.trans)
        with False "2.prems"(1) show False by simp
      qed
      ultimately show ?thesis by (simp add: p sublist_Cons_right)
    next
      assume "p \<in> set qs"
      with False "2.IH"(2) "2.prems"(1) q show ?thesis by simp
    qed
  qed
qed

lemma length_cons_first: "ps \<noteq> [] \<Longrightarrow> length (cons_first c ps) = length ps"
  by (cases ps) simp_all

lemma split_str_length_ge2:
  "sep \<noteq> [] \<Longrightarrow> sublist sep s \<Longrightarrow> 2 \<le> length (split_str sep s)"
proof (induction sep s rule: split_str.induct)
  case (1 sep)
  then show ?case by simp
next
  case (2 sep c cs)
  show ?case
  proof (cases "sep \<noteq> [] \<and> prefix sep (c # cs)")
    case True
    moreover have "1 \<le> length (split_str sep (drop (length sep - 1) cs))"
      using split_str_not_Nil [of sep "drop (length sep - 1) cs"]
      by (cases "split_str sep (drop (length sep - 1) cs)") simp_all
    ultimately show ?thesis by simp
  next
    case False
    with "2.prems" have "sublist sep cs" by (simp add: sublist_Cons_right)
    with False "2.IH"(2) "2.prems"(1) have "2 \<le> length (split_str sep cs)" by simp
    moreover from False have "split_str sep (c # cs) = cons_first c (split_str sep cs)"
      by (subst split_str.simps) (rule if_not_P)
    ultimately show ?thesis
      by (simp only: length_cons_first [OF split_str_not_Nil])
  qed
qed

lemma fence_not_Nil: "fence \<noteq> []"
  by (simp add: fence_eq)

lemma extract_fenced:
  assumes pre: "\<not> sublist fence pre" "pre = [] \<or> last pre \<noteq> 96"
    and body: "\<not> sublist fence body" "body = [] \<or> last body \<noteq> 96"
  shows "extract_code_block (pre @ fence @ body @ fence @ post) =
           Inr (if prefix (lit ''python'') (strip body)
                then strip (drop 6 (strip body)) else strip body)"
proof -
  obtain q qs where q: "split_str fence post = q # qs"
    using split_str_not_Nil [of fence post] by (cases "split_str fence post") auto
  have "split_str fence (pre @ fence @ body @ fence @ post) =
          pre # split_str fence (body @ fence @ post)"
    using pre by (rule split_fence_first)
  also have "split_str fence (body @ fence @ post) = body # split_str fence post"
    using body by (rule split_fence_first)
  finally have s: "split_str fence (pre @ fence @ body @ fence @ post) = pre # body # q # qs"
    by (simp add: q)
  have "sublist fence (pre @ fence @ body @ fence @ post)"
    by (rule sublist_appendI)
  then show ?thesis
    by (simp add: extract_code_block_def s index_def Let_def)
qed

lemma no_fence_in_turn:
  assumes "\<not> sublist fence code"
  shows "\<not> sublist fence (lit ''python'' @ [10] @ code @ [10])"
proof -
  have "sublist fence (lit ''python'' @ [10] @ code @ [10]) \<longleftrightarrow> sublist fence (code @ [10])"
    by (simp add: python_eq sublist_fence_Cons)
  also have "\<dots> \<longleftrightarrow> sublist fence code"
    by (rule sublist_fence_snoc) simp
  finally show ?thesis using assms by simp
qed

lemma strip_turn: "strip (lit ''python'' @ [10] @ code @ [10]) = lit ''python'' @ drop 6 (strip (lit ''python'' @ [10] @ code @ [10])) \<and> strip (drop 6 (strip (lit ''python'' @ [10] @ code @ [10]))) = strip code"
proof -
  obtain a b where d: "code = a @ strip code @ b"
    and a: "\<forall>c\<in>set a. is_space c" and b: "\<forall>c\<in>set b. is_space c"
    and m: "strip code = [] \<or> (\<not> is_space (hd (strip code)) \<and> \<not> is_space (last (strip code)))"
    using strip_decomp [of code] by blast
  define m where "m = strip code"
  show ?thesis
  proof (cases "m = []")
    case True
    have "lit ''python'' @ [10] @ code @ [10] = [] @ lit ''python'' @ ([10] @ a @ b @ [10])"
      using d True by (simp add: m_def)
    moreover have "strip ([] @ lit ''python'' @ ([10] @ a @ b @ [10])) = lit ''python''"
      using a b by (intro strip_unique) (auto simp: python_eq space_10 not_space_p)
    ultimately have "strip (lit ''python'' @ [10] @ code @ [10]) = lit ''python''"
      by simp
    moreover have "strip [] = []" by (simp add: strip_def)
    ultimately show ?thesis using True by (simp add: m_def python_eq)
  next
    case False
    have "lit ''python'' @ [10] @ code @ [10] = [] @ (lit ''python'' @ [10] @ a @ m) @ (b @ [10])"
      by (subst d) (simp add: m_def)
    moreover have "strip ([] @ (lit ''python'' @ [10] @ a @ m) @ (b @ [10])) = lit ''python'' @ [10] @ a @ m"
      using b False m by (intro strip_unique) (auto simp: python_eq space_10 not_space_p m_def)
    ultimately have 1: "strip (lit ''python'' @ [10] @ code @ [10]) = lit ''python'' @ [10] @ a @ m"
      by simp
    have "strip (([10] @ a) @ m @ []) = m"
      using a m by (intro strip_unique) (auto simp: space_10 m_def)
    then have 2: "strip ([10] @ a @ m) = m" by simp
    have 3: "drop 6 (lit ''python'' @ [10] @ a @ m) = [10] @ a @ m"
      by (simp add: python_eq)
    show ?thesis unfolding 1 3 2 by (simp add: m_def)
  qed
qed

lemma extract_clean_response:
  assumes "\<not> sublist fence code"
  shows "extract_code_block (create_clean_assistant_response code) = Inr (strip code)"
proof -
  let ?body = "lit ''python'' @ [10] @ code @ [10]"
  have f: "create_clean_assistant_response code = [] @ fence @ ?body @ fence @ []"
    by (simp add: create_clean_assistant_response_def fence_python_eq fence_def)
  have p1: "\<not> sublist fence []" by (simp add: fence_not_Nil)
  have p2: "([]::str) = [] \<or> last [] \<noteq> (96::nat)" by simp
  have b1: "\<not> sublist fence ?body" using assms by (rule no_fence_in_turn)
  have b2: "?body = [] \<or> last ?body \<noteq> 96" by simp
  have "extract_code_block ([] @ fence @ ?body @ fence @ []) =
          Inr (if prefix (lit ''python'') (strip ?body)
               then strip (drop 6 (strip ?body)) else strip ?body)"
    by (rule extract_fenced [OF p1 p2 b1 b2])
  moreover have "prefix (lit ''python'') (strip ?body)"
    using strip_turn [of code] by (metis prefixI)
  ultimately show ?thesis
    using strip_turn [of code] by (simp only: f if_True)
qed


section \<open>Facts about the steps of the driver\<close>

lemma extract_code_block_total: "\<exists>code. extract_code_block response = Inr code"
  by (simp add: extract_code_block_def index_def Let_def)

lemmas step_defs = Let_def prints_def print_def append_message_def generate_response_def
  show_full_response_def

lemma step1_err:
  assumes "completion env (messages s @ [step1_prompt d]) = Inl e"
  shows "\<exists>s'. step1 env d sh s = (Inl e, s') \<and>
           messages s' = messages s @ [step1_prompt d] \<and>
           requests s' = requests s @ [messages s @ [step1_prompt d]] \<and>
           files s' = files s \<and> prefix (console s) (console s')"
  using assms by (simp add: step1_def step_defs)

lemma step1_ok:
  assumes "completion env (messages s @ [step1_prompt d]) = Inr resp"
    and "extract_code_block resp = Inr b"
  shows "\<exists>s'. step1 env d sh s = (Inr b, s') \<and>
           messages s' = messages s @ [step1_prompt d, assistant_turn b] \<and>
           requests s' = requests s @ [messages s @ [step1_prompt d]] \<and>
           files s' = files s \<and> prefix (console s) (console s') \<and> b \<in> set (console s')"
  using assms by (simp add: step1_def step_defs)

lemma step2_err:
  assumes "completion env (messages s @ [step2_prompt]) = Inl e"
  shows "\<exists>s'. step2 env sh s = (Inl e, s') \<and>
           messages s' = messages s @ [step2_prompt] \<and>
           requests s' = requests s @ [messages s @ [step2_prompt]] \<and>
           files s' = files s \<and> prefix (console s) (console s')"
  using assms by (simp add: step2_def step_defs)

lemma step2_ok:
  assumes "completion env (messages s @ [step2_prompt]) = Inr resp"
    and "extract_code_block resp = Inr b"
  shows "\<exists>s'. step2 env sh s = (Inr b, s') \<and>
           messages s' = messages s @ [step2_prompt, assistant_turn b] \<and>
           requests s' = requests s @ [messages s @ [step2_prompt]] \<and>
           files s' = files s \<and> prefix (console s) (console s') \<and> b \<in> set (console s')"
  using assms by (simp add: step2_def step_defs)

lemma step3_err:
  assumes "completion env (messages s @ [step3_prompt]) = Inl e"
  shows "\<exists>s'. step3 env sh s = (Inl e, s') \<and>
           messages s' = messages s @ [step3_prompt] \<and>
           requests s' = requests s @ [messages s @ [step3_prompt]] \<and>
           files s' = files s \<and> prefix (console s) (console s')"
  using assms by (simp add: step3_def step_defs)

lemma step3_ok:
  assumes "completion env (messages s @ [step3_prompt]) = Inr resp"
    and "extract_code_block resp = Inr b"
  shows "\<exists>s'. step3 env sh s = (Inr b, s') \<and>
           messages s' = messages s @ [step3_prompt] \<and>
           requests s' = requests s @ [messages s @ [step3_prompt]] \<and>
           files s' = files s \<and> prefix (console s) (console s') \<and> b \<in> set (console s')"
  using assms by (simp add: step3_def step_defs)

lemma save_messages:
  "messages (snd (save_function_to_file env code d s)) = messages s \<and>
   requests (snd (save_function_to_file env code d s)) = requests s \<and>
   prefix (console s) (console (snd (save_function_to_file env code d s)))"
  by (simp add: save_function_to_file_def except_Exception_def step_defs split: option.splits)

lemma debug_messages:
  "messages (debug_conversation s) = messages s \<and> requests (debug_conversation s) = requests s \<and>
   files (debug_conversation s) = files s \<and> prefix (console s) (console (debug_conversation s))"
  by (simp add: debug_conversation_def step_defs)

lemma save_and_finish_keeps:
  "messages (snd (save_and_finish env d sh code s)) = messages s \<and>
   requests (snd (save_and_finish env d sh code s)) = requests s \<and>
   prefix (console s) (console (snd (save_and_finish env d sh code s)))"
  by (simp add: save_and_finish_def save_function_to_file_def except_Exception_def
        debug_conversation_def step_defs split: option.splits)

lemma save_and_finish_ok:
  assumes "file_open env (generate_filename env d) = None"
    and "file_write env (generate_filename env d) code = None"
  shows "fst (save_and_finish env d sh code s) = Inr ()"
  using assms by (simp add: save_and_finish_def save_function_to_file_def Let_def)

lemma save_and_finish_warns:
  assumes "file_open env (generate_filename env d) = Some e \<or>
           (file_open env (generate_filename env d) = None \<and>
            file_write env (generate_filename env d) code = Some e)"
    and "is_exception e"
  shows "fst (save_and_finish env d sh code s) = Inr () \<and>
         lit ''Warning: Could not save to file - '' @ str_of_error e
           \<in> set (console (snd (save_and_finish env d sh code s)))"
  using assms
  by (auto simp: save_and_finish_def save_function_to_file_def except_Exception_def
        debug_conversation_def step_defs)

lemma save_and_finish_raises:
  assumes "file_open env (generate_filename env d) = Some e \<or>
           (file_open env (generate_filename env d) = None \<and>
            file_write env (generate_filename env d) code = Some e)"
    and "\<not> is_exception e"
  shows "fst (save_and_finish env d sh code s) = Inl e"
  using assms
  by (auto simp: save_and_finish_def save_function_to_file_def except_Exception_def Let_def)

lemma run_unfold:
  "create_python_function env d sh s0 =
     (case step1 env d sh (start d s0) of
        (Inl e, s) \<Rightarrow> (Inl e, s)
      | (Inr basic_function, s) \<Rightarrow>
          (case step2 env sh s of
             (Inl e, s) \<Rightarrow> (Inl e, s)
           | (Inr documented_function, s) \<Rightarrow>
               (case step3 env sh s of
                  (Inl e, s) \<Rightarrow> (Inl e, s)
                | (Inr final_code, s) \<Rightarrow>
                    (case save_and_finish env d sh final_code s of
                       (Inl e, s) \<Rightarrow> (Inl e, s)
                     | (Inr u, s) \<Rightarrow>
                         (Inr (basic_function, documented_function, final_code), s)))))"
  by (simp add: create_python_function_def)

lemma start_facts:
  "messages (start d s0) = [system_message] \<and> requests (start d s0) = requests s0 \<and>
   files (start d s0) = files s0 \<and> prefix (console s0) (console (start d s0))"
  by (simp add: start_def prints_def Let_def)

lemma run_step1_fails:
  assumes "completion env [system_message, step1_prompt d] = Inl e"
  shows "\<exists>s. create_python_function env d sh s0 = (Inl e, s) \<and>
           messages s = [system_message, step1_prompt d] \<and>
           requests s = requests s0 @ [[system_message, step1_prompt d]] \<and>
           files s = files s0"
proof -
  from assms have "completion env (messages (start d s0) @ [step1_prompt d]) = Inl e"
    by (simp add: start_facts)
  from step1_err [OF this, of sh] obtain s1 where "step1 env d sh (start d s0) = (Inl e, s1)"
    and "messages s1 = messages (start d s0) @ [step1_prompt d]"
    and "requests s1 = requests (start d s0) @ [messages (start d s0) @ [step1_prompt d]]"
    and "files s1 = files (start d s0)"
    by blast
  then show ?thesis by (simp add: run_unfold start_facts)
qed

lemma run_step2_fails:
  assumes "completion env [system_message, step1_prompt d] = Inr r1"
    and "extract_code_block r1 = Inr b"
    and "completion env [system_message, step1_prompt d, assistant_turn b, step2_prompt] = Inl e"
  shows "\<exists>s. create_python_function env d sh s0 = (Inl e, s) \<and>
           messages s = [system_message, step1_prompt d, assistant_turn b, step2_prompt] \<and>
           requests s = requests s0 @ [[system_message, step1_prompt d],
             [system_message, step1_prompt d, assistant_turn b, step2_prompt]] \<and>
           files s = files s0 \<and> b \<in> set (console s)"
proof -
  from assms(1) have "completion env (messages (start d s0) @ [step1_prompt d]) = Inr r1"
    by (simp add: start_facts)
  from step1_ok [OF this assms(2), of sh] obtain s1
    where 1: "step1 env d sh (start d s0) = (Inr b, s1)"
      and m1: "messages s1 = messages (start d s0) @ [step1_prompt d, assistant_turn b]"
      and r1: "requests s1 = requests (start d s0) @ [messages (start d s0) @ [step1_prompt d]]"
      and f1: "files s1 = files (start d s0)" and c1: "b \<in> set (console s1)"
    by blast
  from assms(3) have "completion env (messages s1 @ [step2_prompt]) = Inl e"
    by (simp add: m1 start_facts)
  from step2_err [OF this, of sh] obtain s2
    where 2: "step2 env sh s1 = (Inl e, s2)"
      and m2: "messages s2 = messages s1 @ [step2_prompt]"
      and r2: "requests s2 = requests s1 @ [messages s1 @ [step2_prompt]]"
      and f2: "files s2 = files s1" and c2: "prefix (console s1) (console s2)"
    by blast
  from c1 c2 have "b \<in> set (console s2)"
    using set_mono_prefix by blast
  then show ?thesis
    by (simp add: run_unfold 1 2 m1 m2 r1 r2 f1 f2 start_facts)
qed

lemma run_step3_fails:
  assumes "completion env [system_message, step1_prompt d] = Inr r1"
    and "extract_code_block r1 = Inr b"
    and "completion env [system_message, step1_prompt d, assistant_turn b, step2_prompt] = Inr r2"
    and "extract_code_block r2 = Inr dc"
    and "completion env [system_message, step1_prompt d, assistant_turn b, step2_prompt,
           assistant_turn dc, step3_prompt] = Inl e"
  shows "\<exists>s. create_python_function env d sh s0 = (Inl e, s)"
proof -
  from assms(1) have "completion env (messages (start d s0) @ [step1_prompt d]) = Inr r1"
    by (simp add: start_facts)
  from step1_ok [OF this assms(2), of sh] obtain s1
    where 1: "step1 env d sh (start d s0) = (Inr b, s1)"
      and m1: "messages s1 = messages (start d s0) @ [step1_prompt d, assistant_turn b]"
    by blast
  from assms(3) have "completion env (messages s1 @ [step2_prompt]) = Inr r2"
    by (simp add: m1 start_facts)
  from step2_ok [OF this assms(4), of sh] obtain s2
    where 2: "step2 env sh s1 = (Inr dc, s2)"
      and m2: "messages s2 = messages s1 @ [step2_prompt, assistant_turn dc]"
    by blast
  from assms(5) have "completion env (messages s2 @ [step3_prompt]) = Inl e"
    by (simp add: m1 m2 start_facts)
  from step3_err [OF this, of sh] obtain s3 where 3: "step3 env sh s2 = (Inl e, s3)"
    by blast
  show ?thesis by (simp add: run_unfold 1 2 3)
qed

lemma run_completes:
  assumes "completion env [system_message, step1_prompt d] = Inr r1"
    and "extract_code_block r1 = Inr b"
    and "completion env [system_message, step1_prompt d, assistant_turn b, step2_prompt] = Inr r2"
    and "extract_code_block r2 = Inr dc"
    and "completion env [system_message, step1_prompt d, assistant_turn b, step2_prompt,
           assistant_turn dc, step3_prompt] = Inr r3"
    and "extract_code_block r3 = Inr f"
  shows "\<exists>s3. fst (create_python_function env d sh s0) =
                (case fst (save_and_finish env d sh f s3) of
                   Inl e \<Rightarrow> Inl e | Inr u \<Rightarrow> Inr (b, dc, f)) \<and>
           snd (create_python_function env d sh s0) = snd (save_and_finish env d sh f s3) \<and>
           messages s3 = [system_message, step1_prompt d, assistant_turn b, step2_prompt,
             assistant_turn dc, step3_prompt] \<and>
           requests s3 = requests s0 @ [[system_message, step1_prompt d],
             [system_message, step1_prompt d, assistant_turn b, step2_prompt],
             [system_message, step1_prompt d, assistant_turn b, step2_prompt,
              assistant_turn dc, step3_prompt]]"
proof -
  from assms(1) have "completion env (messages (start d s0) @ [step1_prompt d]) = Inr r1"
    by (simp add: start_facts)
  from step1_ok [OF this assms(2), of sh] obtain s1
    where 1: "step1 env d sh (start d s0) = (Inr b, s1)"
      and m1: "messages s1 = messages (start d s0) @ [step1_prompt d, assistant_turn b]"
      and r1: "requests s1 = requests (start d s0) @ [messages (start d s0) @ [step1_prompt d]]"
    by blast
  from assms(3) have "completion env (messages s1 @ [step2_prompt]) = Inr r2"
    by (simp add: m1 start_facts)
  from step2_ok [OF this assms(4), of sh] obtain s2
    where 2: "step2 env sh s1 = (Inr dc, s2)"
      and m2: "messages s2 = messages s1 @ [step2_prompt, assistant_turn dc]"
      and r2: "requests s2 = requests s1 @ [messages s1 @ [step2_prompt]]"
    by blast
  from assms(5) have "completion env (messages s2 @ [step3_prompt]) = Inr r3"
    by (simp add: m1 m2 start_facts)
  from step3_ok [OF this assms(6), of sh] obtain s3
    where 3: "step3 env sh s2 = (Inr f, s3)"
      and m3: "messages s3 = messages s2 @ [step3_prompt]"
      and r3: "requests s3 = requests s2 @ [messages s2 @ [step3_prompt]]"
    by blast
  show ?thesis
    by (rule exI [of _ s3])
      (simp add: run_unfold 1 2 3 m1 m2 m3 r1 r2 r3 start_facts split: prod.splits sum.splits)
qed

section \<open>The claims about the code extractor and the turn formatter\<close>

lemmas eval_simps = lit_def fence_eq strip_def is_space_def index_def
  extract_code_block_def create_clean_assistant_response_def sublist_Cons_right Let_def

text \<open>
  C3, as amended. For every code string without a fence, the extractor applied
  to the formatted turn returns the code stripped of leading and trailing
  whitespace; it returns the code itself when the code neither starts nor ends
  with whitespace. (As stated, with the code returned unchanged in all cases,
  the claim fails on code with whitespace at either end.)
\<close>

theorem clean_response_roundtrip:
  assumes "\<not> sublist fence code"
  shows "extract_code_block (create_clean_assistant_response code) = Inr (strip code) \<and>
         (code = [] \<or> (\<not> is_space (hd code) \<and> \<not> is_space (last code)) \<longrightarrow>
          extract_code_block (create_clean_assistant_response code) = Inr code)"
proof -
  have 1: "extract_code_block (create_clean_assistant_response code) = Inr (strip code)"
    using assms by (rule extract_clean_response)
  have "strip ([] @ code @ []) = code"
    if "code = [] \<or> (\<not> is_space (hd code) \<and> \<not> is_space (last code))"
    using that by (intro strip_unique) simp_all
  with 1 show ?thesis by simp
qed

theorem clean_response_roundtrip_witness:
  "\<not> sublist fence (lit ''x = 1'') \<and>
   (lit ''x = 1'' = [] \<or> (\<not> is_space (hd (lit ''x = 1'')) \<and> \<not> is_space (last (lit ''x = 1'')))) \<and>
   extract_code_block (create_clean_assistant_response (lit ''x = 1'')) = Inr (lit ''x = 1'')"
proof -
  have h: "\<not> sublist fence (lit ''x = 1'')"
    by (simp add: eval_simps)
  have e: "\<not> is_space (hd (lit ''x = 1'')) \<and> \<not> is_space (last (lit ''x = 1''))"
    by (simp add: lit_def is_space_def)
  from clean_response_roundtrip [OF h] h e show ?thesis by blast
qed

theorem roundtrip_counterexample:
  "\<not> sublist fence (lit '' x'') \<and>
   extract_code_block (create_clean_assistant_response (lit '' x'')) = Inr (lit ''x'') \<and>
   extract_code_block (create_clean_assistant_response (lit '' x'')) \<noteq> Inr (lit '' x'')"
  by (simp add: eval_simps)

text \<open>
  C4, as amended. For every input whose split on the fence does not give exactly
  two parts (the input has no fence, or at least two), extracting, formatting
  and extracting again returns what the first extraction returned. (With exactly
  one fence the first extraction keeps the fence, and the second returns only
  the text before it.)
\<close>

theorem extract_idempotent:
  assumes n: "length (split_str fence x) \<noteq> 2" and c: "extract_code_block x = Inr c"
  shows "extract_code_block (create_clean_assistant_response c) = Inr c"
proof -
  have "\<not> sublist fence c \<and> strip c = c"
  proof (cases "sublist fence x")
    case False
    with c have "c = strip x" by (simp add: extract_code_block_def)
    moreover have "\<not> sublist fence (strip x)"
      using False sublist_strip [of x] sublist_order.order.trans by blast
    ultimately show ?thesis by (simp add: strip_strip)
  next
    case True
    then have "2 \<le> length (split_str fence x)"
      by (rule split_str_length_ge2 [OF fence_not_Nil])
    with n have l: "3 \<le> length (split_str fence x)" by simp
    define p where "p = split_str fence x ! 1"
    from l have "p \<in> set (split_str fence x)" by (simp add: p_def)
    then have np: "\<not> sublist fence p"
      by (rule split_str_parts_no_sep [OF fence_not_Nil])
    from True l have "extract_code_block x =
        Inr (if prefix (lit ''python'') (strip p) then strip (drop 6 (strip p)) else strip p)"
      by (simp add: extract_code_block_def index_def Let_def p_def)
    with c have cp: "c = (if prefix (lit ''python'') (strip p) then strip (drop 6 (strip p)) else strip p)"
      by simp
    have 1: "sublist (strip p) p" by (rule sublist_strip)
    have "sublist (strip (drop 6 (strip p))) (drop 6 (strip p))" by (rule sublist_strip)
    moreover have "sublist (drop 6 (strip p)) (strip p)" by (rule sublist_drop)
    ultimately have "sublist (strip (drop 6 (strip p))) (strip p)"
      by (rule sublist_order.order.trans)
    then have 2: "sublist (strip (drop 6 (strip p))) p"
      using 1 by (rule sublist_order.order.trans)
    from cp 1 2 have "sublist c p" by (simp split: if_splits)
    with np have "\<not> sublist fence c" using sublist_order.order.trans by blast
    moreover from cp have "strip c = c" by (simp add: strip_strip split: if_splits)
    ultimately show ?thesis by simp
  qed
  then show ?thesis using extract_clean_response [of c] by simp
qed

theorem extract_idempotent_witness:
  "length (split_str fence (sample_response (lit ''x = 1''))) \<noteq> 2 \<and>
   extract_code_block (sample_response (lit ''x = 1'')) = Inr (lit ''x = 1'') \<and>
   extract_code_block (create_clean_assistant_response (lit ''x = 1'')) = Inr (lit ''x = 1'')"
proof -
  have n: "length (split_str fence (sample_response (lit ''x = 1''))) \<noteq> 2"
    by (simp add: sample_response_def eval_simps)
  have c: "extract_code_block (sample_response (lit ''x = 1'')) = Inr (lit ''x = 1'')"
    by (simp add: sample_response_def eval_simps)
  from extract_idempotent [OF n c] n c show ?thesis by blast
qed

theorem idempotent_counterexample:
  "extract_code_block (lit ''a```b'') = Inr (lit ''a```b'') \<and>
   extract_code_block (create_clean_assistant_response (lit ''a```b'')) = Inr (lit ''a'') \<and>
   extract_code_block (create_clean_assistant_response (lit ''a```b'')) \<noteq> Inr (lit ''a```b'')"
  by (simp add: eval_simps)




text \<open>
  C6. For every input without a fence, the extractor returns the input stripped
  of leading and trailing whitespace, and raises nothing.
\<close>

theorem extract_without_fence:
  "\<not> sublist fence text \<Longrightarrow> extract_code_block text = Inr (strip text)"
  by (simp add: extract_code_block_def)

theorem extract_without_fence_witness:
  "\<not> sublist fence (lit ''  x = 1 '') \<and> extract_code_block (lit ''  x = 1 '') = Inr (lit ''x = 1'')"
proof -
  have h: "\<not> sublist fence (lit ''  x = 1 '')" by (simp add: eval_simps)
  have "strip (lit ''  x = 1 '') = lit ''x = 1''" by (simp add: eval_simps)
  with extract_without_fence [OF h] h show ?thesis by simp
qed

text \<open>
  C9. The extractor and the formatter are functions of their argument alone: the
  extractor returns a string for every input, never an exception (its one index
  into the parts is within range), and the formatter always puts the code
  between the same opening line \<open>```python\<close> and the same closing fence.
\<close>

theorem extract_never_raises:
  "(\<exists>code. extract_code_block response = Inr code) \<and>
   create_clean_assistant_response code = fence @ lit ''python'' @ [10] @ code @ [10] @ fence"
  by (simp add: extract_code_block_def index_def Let_def create_clean_assistant_response_def
        fence_def lit_def)

text \<open>
  C10. For every input whose split on the fence gives exactly two parts, the
  extractor returns the whole input stripped of leading and trailing whitespace,
  and the fence is still in the result.
\<close>

theorem extract_single_fence:
  assumes "length (split_str fence text) = 2"
  shows "extract_code_block text = Inr (strip text) \<and> sublist fence (strip text)"
proof
  from assms show "extract_code_block text = Inr (strip text)"
    by (simp add: extract_code_block_def)
  have "sublist fence text"
  proof (rule ccontr)
    assume "\<not> sublist fence text"
    then have "split_str fence text = [text]" by (rule split_str_no_sep)
    with assms show False by simp
  qed
  then show "sublist fence (strip text)" by (rule sublist_fence_strip)
qed

theorem extract_single_fence_witness:
  "length (split_str fence (lit '' a```b '')) = 2 \<and>
   extract_code_block (lit '' a```b '') = Inr (lit ''a```b'') \<and> sublist fence (lit ''a```b'')"
proof -
  have h: "length (split_str fence (lit '' a```b '')) = 2" by (simp add: eval_simps)
  have "strip (lit '' a```b '') = lit ''a```b''" by (simp add: eval_simps)
  with extract_single_fence [OF h] h show ?thesis by simp
qed

section \<open>The claims about the conversation driver\<close>

lemma completed_run:
  assumes "fst (create_python_function env d sh s0) = Inr (b, dc, f)"
  shows "\<exists>r1 r2 r3.
           completion env [system_message, step1_prompt d] = Inr r1 \<and>
           extract_code_block r1 = Inr b \<and>
           completion env [system_message, step1_prompt d, assistant_turn b, step2_prompt] = Inr r2 \<and>
           extract_code_block r2 = Inr dc \<and>
           completion env [system_message, step1_prompt d, assistant_turn b, step2_prompt,
             assistant_turn dc, step3_prompt] = Inr r3 \<and>
           extract_code_block r3 = Inr f \<and>
           messages (snd (create_python_function env d sh s0)) =
             [system_message, step1_prompt d, assistant_turn b, step2_prompt,
              assistant_turn dc, step3_prompt] \<and>
           requests (snd (create_python_function env d sh s0)) = requests s0 @
             [[system_message, step1_prompt d],
              [system_message, step1_prompt d, assistant_turn b, step2_prompt],
              [system_message, step1_prompt d, assistant_turn b, step2_prompt,
               assistant_turn dc, step3_prompt]]"
proof (cases "completion env [system_message, step1_prompt d]")
  case (Inl e)
  from run_step1_fails [OF this, of sh s0] assms show ?thesis by auto
next
  case (Inr r1)
  note c1 = this
  obtain b' where e1: "extract_code_block r1 = Inr b'"
    using extract_code_block_total by blast
  show ?thesis
  proof (cases "completion env [system_message, step1_prompt d, assistant_turn b', step2_prompt]")
    case (Inl e)
    from run_step2_fails [OF c1 e1 this, of sh s0] assms show ?thesis by auto
  next
    case (Inr r2)
    note c2 = this
    obtain dc' where e2: "extract_code_block r2 = Inr dc'"
      using extract_code_block_total by blast
    show ?thesis
    proof (cases "completion env [system_message, step1_prompt d, assistant_turn b', step2_prompt,
             assistant_turn dc', step3_prompt]")
      case (Inl e)
      from run_step3_fails [OF c1 e1 c2 e2 this, of sh s0] assms show ?thesis by auto
    next
      case (Inr r3)
      note c3 = this
      obtain f' where e3: "extract_code_block r3 = Inr f'"
        using extract_code_block_total by blast
      from run_completes [OF c1 e1 c2 e2 c3 e3, of sh s0] obtain s3
        where run: "fst (create_python_function env d sh s0) =
                      (case fst (save_and_finish env d sh f' s3) of
                         Inl e \<Rightarrow> Inl e | Inr u \<Rightarrow> Inr (b', dc', f'))"
          and st: "snd (create_python_function env d sh s0) =
                     snd (save_and_finish env d sh f' s3)"
          and m: "messages s3 = [system_message, step1_prompt d, assistant_turn b', step2_prompt,
                    assistant_turn dc', step3_prompt]"
          and r: "requests s3 = requests s0 @ [[system_message, step1_prompt d],
                    [system_message, step1_prompt d, assistant_turn b', step2_prompt],
                    [system_message, step1_prompt d, assistant_turn b', step2_prompt,
                     assistant_turn dc', step3_prompt]]"
        by blast
      from run assms have eq: "b' = b" "dc' = dc" "f' = f"
        by (simp_all split: sum.splits)
      show ?thesis
        using c1 e1 c2 e2 c3 e3 m r
        by (simp add: st eq save_and_finish_keeps)
    qed
  qed
qed

lemma roles:
  "role system_message = lit ''system''" "role (step1_prompt d) = lit ''user''"
  "role step2_prompt = lit ''user''" "role step3_prompt = lit ''user''"
  "role (assistant_turn c) = lit ''assistant''"
  by (simp_all add: system_message_def step1_prompt_def step2_prompt_def step3_prompt_def
        assistant_turn_def)

lemma sample_completion: "completion (sample_env r1 r2 r3 res) h = scripted r1 r2 r3 h"
  by (simp add: sample_env_def)

lemma sample_extracts:
  "extract_code_block (sample_response (lit ''a'')) = Inr (lit ''a'')"
  "extract_code_block (sample_response (lit ''b'')) = Inr (lit ''b'')"
  "extract_code_block (sample_response (lit ''c'')) = Inr (lit ''c'')"
  by (simp_all add: sample_response_def eval_simps)

lemma good_run:
  "fst (create_python_function good_env (lit ''adds two numbers'') False empty_state) =
     Inr (lit ''a'', lit ''b'', lit ''c'') \<and>
   messages (snd (create_python_function good_env (lit ''adds two numbers'') False empty_state)) =
     [system_message, step1_prompt (lit ''adds two numbers''), assistant_turn (lit ''a''),
      step2_prompt, assistant_turn (lit ''b''), step3_prompt]"
proof -
  have 1: "completion good_env [system_message, step1_prompt (lit ''adds two numbers'')] =
             Inr (sample_response (lit ''a''))"
    by (simp add: good_env_def sample_completion scripted_def)
  have 2: "completion good_env [system_message, step1_prompt (lit ''adds two numbers''),
             assistant_turn (lit ''a''), step2_prompt] = Inr (sample_response (lit ''b''))"
    by (simp add: good_env_def sample_completion scripted_def)
  have 3: "completion good_env [system_message, step1_prompt (lit ''adds two numbers''),
             assistant_turn (lit ''a''), step2_prompt, assistant_turn (lit ''b''), step3_prompt] =
             Inr (sample_response (lit ''c''))"
    by (simp add: good_env_def sample_completion scripted_def)
  have 4: "fst (save_and_finish good_env (lit ''adds two numbers'') False (lit ''c'') s) = Inr ()"
    for s
    by (rule save_and_finish_ok) (simp_all add: good_env_def sample_env_def)
  from run_completes [OF 1 sample_extracts(1) 2 sample_extracts(2) 3 sample_extracts(3),
      of False empty_state]
  show ?thesis by (auto simp: save_and_finish_keeps 4)
qed

text \<open>
  C1, as amended. After a completed run of \<open>create_python_function\<close> the history
  holds exactly six messages: the system message, then user, assistant, user,
  assistant, user; step 3 appends no assistant message. The history only grows:
  the histories sent to the completion service are the first two, the first
  four and all six messages of the final history.
\<close>

theorem completed_run_history:
  assumes "fst (create_python_function env d sh s0) = Inr (b, dc, f)"
  shows "messages (snd (create_python_function env d sh s0)) =
           [system_message, step1_prompt d, assistant_turn b, step2_prompt,
            assistant_turn dc, step3_prompt] \<and>
         length (messages (snd (create_python_function env d sh s0))) = 6 \<and>
         map role (messages (snd (create_python_function env d sh s0))) =
           [lit ''system'', lit ''user'', lit ''assistant'', lit ''user'', lit ''assistant'',
            lit ''user''] \<and>
         requests (snd (create_python_function env d sh s0)) = requests s0 @
           [take 2 (messages (snd (create_python_function env d sh s0))),
            take 4 (messages (snd (create_python_function env d sh s0))),
            messages (snd (create_python_function env d sh s0))]"
  using completed_run [OF assms] by (auto simp: roles)

theorem completed_run_history_witness:
  "fst (create_python_function good_env (lit ''adds two numbers'') False empty_state) =
     Inr (lit ''a'', lit ''b'', lit ''c'') \<and>
   length (messages (snd (create_python_function good_env (lit ''adds two numbers'') False
     empty_state))) = 6 \<and>
   map role (messages (snd (create_python_function good_env (lit ''adds two numbers'') False
     empty_state))) =
     [lit ''system'', lit ''user'', lit ''assistant'', lit ''user'', lit ''assistant'', lit ''user'']"
proof -
  have h: "fst (create_python_function good_env (lit ''adds two numbers'') False empty_state) =
             Inr (lit ''a'', lit ''b'', lit ''c'')"
    using good_run by simp
  from completed_run_history [OF h] h show ?thesis by blast
qed

theorem completed_run_not_seven:
  "fst (create_python_function good_env (lit ''adds two numbers'') False empty_state) =
     Inr (lit ''a'', lit ''b'', lit ''c'') \<and>
   length (messages (snd (create_python_function good_env (lit ''adds two numbers'') False
     empty_state))) = 6 \<and>
   length (messages (snd (create_python_function good_env (lit ''adds two numbers'') False
     empty_state))) \<noteq> 7"
  using good_run by simp

text \<open>
  C2, as amended. After a completed run the assistant messages of the history
  are two: the formatted form of the code extracted from the first response and
  that of the code extracted from the second response, not the responses
  themselves. The code extracted from the third response is returned, and no
  assistant message is appended for it.
\<close>

theorem assistant_turns_clean:
  assumes "fst (create_python_function env d sh s0) = Inr (b, dc, f)"
  shows "filter (\<lambda>m. role m = lit ''assistant'')
             (messages (snd (create_python_function env d sh s0))) =
           [\<lparr>role = lit ''assistant'', content = create_clean_assistant_response b\<rparr>,
            \<lparr>role = lit ''assistant'', content = create_clean_assistant_response dc\<rparr>] \<and>
         (\<exists>r1 r2 r3.
            completion env (take 2 (messages (snd (create_python_function env d sh s0)))) = Inr r1 \<and>
            extract_code_block r1 = Inr b \<and>
            completion env (take 4 (messages (snd (create_python_function env d sh s0)))) = Inr r2 \<and>
            extract_code_block r2 = Inr dc \<and>
            completion env (messages (snd (create_python_function env d sh s0))) = Inr r3 \<and>
            extract_code_block r3 = Inr f)"
proof -
  have ne: "lit ''system'' \<noteq> lit ''assistant''" "lit ''user'' \<noteq> lit ''assistant''"
    by (simp_all add: lit_def)
  from completed_run [OF assms] show ?thesis
    by (auto simp: roles ne) (simp_all add: assistant_turn_def)
qed

theorem assistant_turns_clean_witness:
  "fst (create_python_function good_env (lit ''adds two numbers'') False empty_state) =
     Inr (lit ''a'', lit ''b'', lit ''c'') \<and>
   filter (\<lambda>m. role m = lit ''assistant'')
     (messages (snd (create_python_function good_env (lit ''adds two numbers'') False
        empty_state))) =
     [\<lparr>role = lit ''assistant'', content = create_clean_assistant_response (lit ''a'')\<rparr>,
      \<lparr>role = lit ''assistant'', content = create_clean_assistant_response (lit ''b'')\<rparr>]"
proof -
  have h: "fst (create_python_function good_env (lit ''adds two numbers'') False empty_state) =
             Inr (lit ''a'', lit ''b'', lit ''c'')"
    using good_run by simp
  from assistant_turns_clean [OF h] h show ?thesis by blast
qed

theorem third_response_not_appended:
  "fst (create_python_function good_env (lit ''adds two numbers'') False empty_state) =
     Inr (lit ''a'', lit ''b'', lit ''c'') \<and>
   role (last (messages (snd (create_python_function good_env (lit ''adds two numbers'') False
     empty_state)))) = lit ''user'' \<and>
   create_clean_assistant_response (lit ''c'') \<notin>
     set (map content (messages (snd (create_python_function good_env (lit ''adds two numbers'')
       False empty_state))))"
proof -
  have "create_clean_assistant_response (lit ''c'') \<notin>
          set (map content [system_message, step1_prompt (lit ''adds two numbers''),
            assistant_turn (lit ''a''), step2_prompt, assistant_turn (lit ''b''), step3_prompt])"
    by (simp add: system_message_def step1_prompt_def step2_prompt_def step3_prompt_def
          assistant_turn_def create_clean_assistant_response_def lit_def)
  with good_run show ?thesis by (simp add: roles)
qed

text \<open>
  C7. When the first completion call answers and the second raises, the run
  ends with that exception; the history then holds the system message, the
  first user message, the formatted code of step 1 and the second user message,
  and the code of step 1 has been printed; exactly two completion calls have
  been made, none for step 3; and no file has been written.
\<close>

theorem step2_failure_aborts:
  assumes "completion env [system_message, step1_prompt d] = Inr r1"
    and "extract_code_block r1 = Inr b"
    and "completion env [system_message, step1_prompt d, assistant_turn b, step2_prompt] = Inl e"
  shows "fst (create_python_function env d sh s0) = Inl e \<and>
         messages (snd (create_python_function env d sh s0)) =
           [system_message, step1_prompt d, assistant_turn b, step2_prompt] \<and>
         b \<in> set (console (snd (create_python_function env d sh s0))) \<and>
         requests (snd (create_python_function env d sh s0)) = requests s0 @
           [[system_message, step1_prompt d],
            [system_message, step1_prompt d, assistant_turn b, step2_prompt]] \<and>
         files (snd (create_python_function env d sh s0)) = files s0"
  using run_step2_fails [OF assms, of sh s0] by auto

theorem step2_failure_aborts_witness:
  "completion failing_env [system_message, step1_prompt (lit ''adds two numbers'')] =
     Inr (sample_response (lit ''a'')) \<and>
   extract_code_block (sample_response (lit ''a'')) = Inr (lit ''a'') \<and>
   completion failing_env [system_message, step1_prompt (lit ''adds two numbers''),
     assistant_turn (lit ''a''), step2_prompt] = Inl (Exception (lit ''timeout'')) \<and>
   fst (create_python_function failing_env (lit ''adds two numbers'') True empty_state) =
     Inl (Exception (lit ''timeout'')) \<and>
   lit ''a'' \<in> set (console (snd (create_python_function failing_env (lit ''adds two numbers'')
     True empty_state))) \<and>
   length (requests (snd (create_python_function failing_env (lit ''adds two numbers'') True
     empty_state))) = 2 \<and>
   files (snd (create_python_function failing_env (lit ''adds two numbers'') True empty_state)) =
     Map.empty"
proof -
  have 1: "completion failing_env [system_message, step1_prompt (lit ''adds two numbers'')] =
             Inr (sample_response (lit ''a''))"
    by (simp add: failing_env_def sample_env_def scripted_def)
  have 2: "extract_code_block (sample_response (lit ''a'')) = Inr (lit ''a'')"
    by (simp add: sample_response_def eval_simps)
  have 3: "completion failing_env [system_message, step1_prompt (lit ''adds two numbers''),
             assistant_turn (lit ''a''), step2_prompt] = Inl (Exception (lit ''timeout''))"
    by (simp add: failing_env_def sample_env_def scripted_def)
  from step2_failure_aborts [OF 1 2 3, of True empty_state] 1 2 3 show ?thesis
    by (simp add: empty_state_def)
qed

text \<open>
  C8, as amended. When the three completion calls answer and opening or writing
  the file raises an exception of class \<open>Exception\<close>, \<open>create_python_function\<close>
  still returns the three extracted pieces of code; the exception is not its
  result, and the warning with the exception's message has been printed. (An
  exception outside class \<open>Exception\<close> is not caught by \<open>save_function_to_file\<close>
  and leaves \<open>create_python_function\<close>.)
\<close>

theorem save_failure_not_propagated:
  assumes "completion env [system_message, step1_prompt d] = Inr r1"
    and "extract_code_block r1 = Inr b"
    and "completion env [system_message, step1_prompt d, assistant_turn b, step2_prompt] = Inr r2"
    and "extract_code_block r2 = Inr dc"
    and "completion env [system_message, step1_prompt d, assistant_turn b, step2_prompt,
           assistant_turn dc, step3_prompt] = Inr r3"
    and "extract_code_block r3 = Inr f"
    and "file_open env (generate_filename env d) = Some e \<or>
         (file_open env (generate_filename env d) = None \<and>
          file_write env (generate_filename env d) f = Some e)"
    and "is_exception e"
  shows "fst (create_python_function env d sh s0) = Inr (b, dc, f) \<and>
         lit ''Warning: Could not save to file - '' @ str_of_error e
           \<in> set (console (snd (create_python_function env d sh s0)))"
  using run_completes [OF assms(1-6), of sh s0] save_and_finish_warns [OF assms(7,8)]
  by auto

theorem save_failure_not_propagated_witness:
  "completion readonly_env [system_message, step1_prompt (lit ''adds two numbers'')] =
     Inr (sample_response (lit ''a'')) \<and>
   extract_code_block (sample_response (lit ''a'')) = Inr (lit ''a'') \<and>
   completion readonly_env [system_message, step1_prompt (lit ''adds two numbers''),
     assistant_turn (lit ''a''), step2_prompt] = Inr (sample_response (lit ''b'')) \<and>
   extract_code_block (sample_response (lit ''b'')) = Inr (lit ''b'') \<and>
   completion readonly_env [system_message, step1_prompt (lit ''adds two numbers''),
     assistant_turn (lit ''a''), step2_prompt, assistant_turn (lit ''b''), step3_prompt] =
     Inr (sample_response (lit ''c'')) \<and>
   extract_code_block (sample_response (lit ''c'')) = Inr (lit ''c'') \<and>
   file_open readonly_env (generate_filename readonly_env (lit ''adds two numbers'')) =
     Some (Exception (lit ''read-only file system'')) \<and>
   is_exception (Exception (lit ''read-only file system'')) \<and>
   fst (create_python_function readonly_env (lit ''adds two numbers'') False empty_state) =
     Inr (lit ''a'', lit ''b'', lit ''c'') \<and>
   lit ''Warning: Could not save to file - read-only file system''
     \<in> set (console (snd (create_python_function readonly_env (lit ''adds two numbers'') False
          empty_state)))"
proof -
  have 1: "completion readonly_env [system_message, step1_prompt (lit ''adds two numbers'')] =
             Inr (sample_response (lit ''a''))"
    by (simp add: readonly_env_def sample_env_def scripted_def)
  have 2: "extract_code_block (sample_response (lit ''a'')) = Inr (lit ''a'')"
    by (simp add: sample_response_def eval_simps)
  have 3: "completion readonly_env [system_message, step1_prompt (lit ''adds two numbers''),
             assistant_turn (lit ''a''), step2_prompt] = Inr (sample_response (lit ''b''))"
    by (simp add: readonly_env_def sample_env_def scripted_def)
  have 4: "extract_code_block (sample_response (lit ''b'')) = Inr (lit ''b'')"
    by (simp add: sample_response_def eval_simps)
  have 5: "completion readonly_env [system_message, step1_prompt (lit ''adds two numbers''),
             assistant_turn (lit ''a''), step2_prompt, assistant_turn (lit ''b''), step3_prompt] =
             Inr (sample_response (lit ''c''))"
    by (simp add: readonly_env_def sample_env_def scripted_def)
  have 6: "extract_code_block (sample_response (lit ''c'')) = Inr (lit ''c'')"
    by (simp add: sample_response_def eval_simps)
  have 7: "file_open readonly_env (generate_filename readonly_env (lit ''adds two numbers'')) =
             Some (Exception (lit ''read-only file system''))"
    by (simp add: readonly_env_def sample_env_def)
  have 8: "is_exception (Exception (lit ''read-only file system''))"
    by (simp add: is_exception_def)
  have 9: "lit ''Warning: Could not save to file - '' @
             str_of_error (Exception (lit ''read-only file system'')) =
           lit ''Warning: Could not save to file - read-only file system''"
    by (simp add: str_of_error_def lit_def)
  from save_failure_not_propagated [OF 1 2 3 4 5 6 disjI1 [OF 7] 8, of False empty_state]
    1 2 3 4 5 6 7 8 show ?thesis
    by (simp only: 9 simp_thms)
qed

theorem interrupted_save_propagates:
  "completion interrupted_env [system_message, step1_prompt (lit ''adds two numbers'')] =
     Inr (sample_response (lit ''a'')) \<and>
   completion interrupted_env [system_message, step1_prompt (lit ''adds two numbers''),
     assistant_turn (lit ''a''), step2_prompt] = Inr (sample_response (lit ''b'')) \<and>
   completion interrupted_env [system_message, step1_prompt (lit ''adds two numbers''),
     assistant_turn (lit ''a''), step2_prompt, assistant_turn (lit ''b''), step3_prompt] =
     Inr (sample_response (lit ''c'')) \<and>
   file_open interrupted_env (generate_filename interrupted_env (lit ''adds two numbers'')) =
     Some (BaseException []) \<and>
   fst (create_python_function interrupted_env (lit ''adds two numbers'') False empty_state) =
     Inl (BaseException []) \<and>
   fst (create_python_function interrupted_env (lit ''adds two numbers'') False empty_state) \<noteq>
     Inr (lit ''a'', lit ''b'', lit ''c'')"
proof -
  have 1: "completion interrupted_env [system_message, step1_prompt (lit ''adds two numbers'')] =
             Inr (sample_response (lit ''a''))"
    by (simp add: interrupted_env_def sample_env_def scripted_def)
  have 2: "completion interrupted_env [system_message, step1_prompt (lit ''adds two numbers''),
             assistant_turn (lit ''a''), step2_prompt] = Inr (sample_response (lit ''b''))"
    by (simp add: interrupted_env_def sample_env_def scripted_def)
  have 3: "completion interrupted_env [system_message, step1_prompt (lit ''adds two numbers''),
             assistant_turn (lit ''a''), step2_prompt, assistant_turn (lit ''b''), step3_prompt] =
             Inr (sample_response (lit ''c''))"
    by (simp add: interrupted_env_def sample_env_def scripted_def)
  have 4: "file_open interrupted_env (generate_filename interrupted_env (lit ''adds two numbers'')) =
             Some (BaseException [])"
    by (simp add: interrupted_env_def sample_env_def)
  have 5: "\<not> is_exception (BaseException [])"
    by (simp add: is_exception_def)
  have 6: "fst (save_and_finish interrupted_env (lit ''adds two numbers'') False (lit ''c'') s) =
             Inl (BaseException [])" for s
    using disjI1 [OF 4] 5 by (rule save_and_finish_raises)
  from run_completes [OF 1 sample_extracts(1) 2 sample_extracts(2) 3 sample_extracts(3),
      of False empty_state]
  have "fst (create_python_function interrupted_env (lit ''adds two numbers'') False empty_state) =
          Inl (BaseException [])"
    by (auto simp: 6)
  with 1 2 3 4 show ?thesis by simp
qed

end
